theory Spec2Isabelle
  imports Main
begin

section \<open>Python values, errors and library functions\<close>

text \<open>
  The registry of \<^verbatim>\<open>cert_chain.py\<close> is dynamically typed: a block read back from the
  chain file holds whatever JSON values the file had. Every field is therefore a Python
  value. Strings stand for their UTF-8 bytes, so \<^verbatim>\<open>s.encode()\<close> is the identity. A
  dictionary is an association list in insertion order (the order \<^verbatim>\<open>repr\<close> prints);
  its keys are strings, as in every dictionary the program builds or parses from JSON.
\<close>

datatype pyfloat = PyFloat int int
  \<comment> \<open>a double, by mantissa and binary exponent; the program never computes with one\<close>

datatype pyval =
    PNone
  | PBool bool
  | PInt int
  | PFloat pyfloat
  | PStr string
  | PList "pyval list"
  | PDict "(string \<times> pyval) list"

datatype pyerr = TypeError | AttributeError | KeyError | IndexError | FileNotFoundError

text \<open>
  The functions of the Python library that the program calls and whose text is not part
  of it are parameters: \<^verbatim>\<open>sha256(bs).hexdigest()\<close>, \<^verbatim>\<open>repr(v)\<close> and \<^verbatim>\<open>str(v)\<close>.
\<close>

record lib =
  sha256_hex :: "string \<Rightarrow> string"
  py_repr :: "pyval \<Rightarrow> string"
  py_str :: "pyval \<Rightarrow> string"

definition format_value :: "lib \<Rightarrow> pyval \<Rightarrow> string" where
  \<comment> \<open>a replacement field \<^verbatim>\<open>{v}\<close> of an f-string: a string is inserted as it is\<close>
  "format_value L v = (case v of PStr s \<Rightarrow> s | _ \<Rightarrow> py_str L v)"

definition dict_get :: "pyval \<Rightarrow> string \<Rightarrow> pyval \<Rightarrow> pyerr + pyval" where
  \<comment> \<open>\<^verbatim>\<open>d.get(k, default)\<close>; only a dictionary has the method\<close>
  "dict_get d k dflt =
     (case d of
        PDict kvs \<Rightarrow> Inr (case map_of kvs k of None \<Rightarrow> dflt | Some v \<Rightarrow> v)
      | _ \<Rightarrow> Inl AttributeError)"

definition subscript :: "pyval \<Rightarrow> string \<Rightarrow> pyerr + pyval" where
  \<comment> \<open>\<^verbatim>\<open>d[k]\<close> with a string key\<close>
  "subscript d k =
     (case d of
        PDict kvs \<Rightarrow> (case map_of kvs k of None \<Rightarrow> Inl KeyError | Some v \<Rightarrow> Inr v)
      | _ \<Rightarrow> Inl TypeError)"

section \<open>Blocks and the ledger\<close>

record block =
  index :: pyval
  timestamp :: pyval
  prev_hash :: pyval
  data :: pyval
  current_hash :: pyval

definition block_fields :: "string list" where
  "block_fields = [''index'', ''timestamp'', ''prev_hash'', ''data'', ''current_hash'']"

definition asdict :: "block \<Rightarrow> pyval" where
  "asdict b = PDict
     [(''index'', index b), (''timestamp'', timestamp b), (''prev_hash'', prev_hash b),
      (''data'', data b), (''current_hash'', current_hash b)]"

text \<open>
  The chain file \<^verbatim>\<open>cert_chain.json\<close> is absent, or holds text that \<^verbatim>\<open>json.load\<close>
  rejects, or holds a JSON document; \<^verbatim>\<open>json.dump\<close> followed by \<^verbatim>\<open>json.load\<close> gives
  back the value written, so the file is modelled by the value it holds. Writing the file
  is taken to succeed.
\<close>

datatype file_state = Absent | Corrupt | Stored pyval

record blockchain =
  chain_blocks :: "block list"
  chain_file :: file_state

definition serialize :: "blockchain \<Rightarrow> pyval" where
  "serialize s = PList (map asdict (chain_blocks s))"

definition save :: "blockchain \<Rightarrow> blockchain" where
  "save s = s\<lparr>chain_file := Stored (serialize s)\<rparr>"

definition sentinel :: string where
  "sentinel = replicate 64 (CHR ''0'')"

definition genesis_data :: pyval where
  "genesis_data = PDict
     [(''type'', PStr ''GENESIS''), (''note'', PStr ''Decentralized Certificate Registry'')]"

definition genesis_block :: "lib \<Rightarrow> pyfloat \<Rightarrow> block" where
  "genesis_block L t =
     \<lparr>index = PInt 0, timestamp = PFloat t, prev_hash = PStr sentinel, data = genesis_data,
      current_hash = PStr (sha256_hex L (py_repr L genesis_data))\<rparr>"

definition create_genesis :: "lib \<Rightarrow> pyfloat \<Rightarrow> blockchain \<Rightarrow> blockchain" where
  \<comment> \<open>\<^verbatim>\<open>t\<close> is the reading of \<^verbatim>\<open>time()\<close>\<close>
  "create_genesis L t s = save (s\<lparr>chain_blocks := [genesis_block L t]\<rparr>)"

definition last_block :: "blockchain \<Rightarrow> pyerr + block" where
  "last_block s = (if chain_blocks s = [] then Inl IndexError else Inr (last (chain_blocks s)))"

definition compute_hash :: "lib \<Rightarrow> pyfloat \<Rightarrow> blockchain \<Rightarrow> pyval \<Rightarrow> pyval \<Rightarrow> string" where
  "compute_hash L t s d ph =
     sha256_hex L
       (py_repr L d @ ''|'' @ format_value L ph @ ''|''
        @ format_value L (PInt (int (length (chain_blocks s)))) @ ''|''
        @ format_value L (PFloat t))"

definition add_block ::
  "lib \<Rightarrow> pyfloat \<Rightarrow> pyfloat \<Rightarrow> pyval \<Rightarrow> blockchain \<Rightarrow> pyerr + (blockchain \<times> block)" where
  \<comment> \<open>\<^verbatim>\<open>t1\<close> is the clock read inside \<^verbatim>\<open>compute_hash\<close>, \<^verbatim>\<open>t2\<close> the one stored\<close>
  "add_block L t1 t2 d s =
     (case last_block s of
        Inl e \<Rightarrow> Inl e
      | Inr lb \<Rightarrow>
          (let ph = current_hash lb;
               h = compute_hash L t1 s d ph;
               b = \<lparr>index = PInt (int (length (chain_blocks s))), timestamp = PFloat t2,
                    prev_hash = ph, data = d, current_hash = PStr h\<rparr>
           in Inr (save (s\<lparr>chain_blocks := chain_blocks s @ [b]\<rparr>), b)))"

fun has_cert_hash_list :: "block list \<Rightarrow> string \<Rightarrow> pyerr + bool" where
  "has_cert_hash_list [] c = Inr False"
| "has_cert_hash_list (b # bs) c =
     (case dict_get (data b) ''cert_hash'' PNone of
        Inl e \<Rightarrow> Inl e
      | Inr v \<Rightarrow> if v = PStr c then Inr True else has_cert_hash_list bs c)"

definition has_cert_hash :: "blockchain \<Rightarrow> string \<Rightarrow> pyerr + bool" where
  "has_cert_hash s c = has_cert_hash_list (chain_blocks s) c"

fun history_list :: "block list \<Rightarrow> string \<Rightarrow> pyerr + pyval list" where
  "history_list [] c = Inr []"
| "history_list (b # bs) c =
     (case dict_get (data b) ''cert_hash'' PNone of
        Inl e \<Rightarrow> Inl e
      | Inr v \<Rightarrow>
          (case history_list bs c of
             Inl e \<Rightarrow> Inl e
           | Inr hs \<Rightarrow> Inr (if v = PStr c then asdict b # hs else hs)))"

definition history :: "blockchain \<Rightarrow> string \<Rightarrow> pyerr + pyval list" where
  "history s c = history_list (chain_blocks s) c"

section \<open>Loading the chain file\<close>

definition block_of :: "pyval \<Rightarrow> pyerr + block" where
  \<comment> \<open>\<^verbatim>\<open>Block(**b)\<close>: the keywords must be the five fields, no fewer and no more;
      the dataclass does not look at the values\<close>
  "block_of b =
     (case b of
        PDict kvs \<Rightarrow>
          if \<exists>k \<in> set (map fst kvs). k \<notin> set block_fields then Inl TypeError
          else
            (case (map_of kvs ''index'', map_of kvs ''timestamp'', map_of kvs ''prev_hash'',
                   map_of kvs ''data'', map_of kvs ''current_hash'') of
               (Some i, Some t, Some p, Some d, Some c) \<Rightarrow>
                 Inr \<lparr>index = i, timestamp = t, prev_hash = p, data = d, current_hash = c\<rparr>
             | _ \<Rightarrow> Inl TypeError)
      | _ \<Rightarrow> Inl TypeError)"

fun load_blocks :: "pyval list \<Rightarrow> pyerr + block list" where
  "load_blocks [] = Inr []"
| "load_blocks (b # bs) =
     (case block_of b of
        Inl e \<Rightarrow> Inl e
      | Inr x \<Rightarrow> (case load_blocks bs of Inl e \<Rightarrow> Inl e | Inr xs \<Rightarrow> Inr (x # xs)))"

definition load :: "pyval \<Rightarrow> pyerr + block list" where
  \<comment> \<open>\<^verbatim>\<open>[Block(**b) for b in raw]\<close>: a list gives its elements, a dictionary its keys and
      a string its characters (none of them a mapping), anything else is not iterable\<close>
  "load raw =
     (case raw of
        PList bs \<Rightarrow> load_blocks bs
      | PDict kvs \<Rightarrow> if kvs = [] then Inr [] else Inl TypeError
      | PStr cs \<Rightarrow> if cs = [] then Inr [] else Inl TypeError
      | _ \<Rightarrow> Inl TypeError)"

definition init :: "lib \<Rightarrow> pyfloat \<Rightarrow> file_state \<Rightarrow> blockchain" where
  \<comment> \<open>\<^verbatim>\<open>Blockchain.__init__\<close>: every exception of \<^verbatim>\<open>_load\<close> is caught\<close>
  "init L t f =
     (let s0 = \<lparr>chain_blocks = [], chain_file = f\<rparr> in
      case f of
        Absent \<Rightarrow> create_genesis L t s0
      | Corrupt \<Rightarrow> create_genesis L t s0
      | Stored raw \<Rightarrow>
          (case load raw of
             Inl e \<Rightarrow> create_genesis L t s0
           | Inr bs \<Rightarrow> s0\<lparr>chain_blocks := bs\<rparr>))"

section \<open>The flows\<close>

definition file_sha256 :: "lib \<Rightarrow> (string \<Rightarrow> string option) \<Rightarrow> string \<Rightarrow> pyerr + string" where
  \<comment> \<open>the certificate files: a path has the bytes of a regular file, or none\<close>
  "file_sha256 L files path =
     (case files path of None \<Rightarrow> Inl FileNotFoundError | Some bytes \<Rightarrow> Inr (sha256_hex L bytes))"

definition cert_fingerprint :: "lib \<Rightarrow> string \<Rightarrow> string \<Rightarrow> string \<Rightarrow> string \<Rightarrow> string" where
  "cert_fingerprint L fhash student course year =
     sha256_hex L (fhash @ ''|'' @ student @ ''|'' @ course @ ''|'' @ year)"

definition mint_data :: "string \<Rightarrow> string \<Rightarrow> string \<Rightarrow> string \<Rightarrow> string \<Rightarrow> pyval" where
  "mint_data combined fhash student course year = PDict
     [(''type'', PStr ''MINT''), (''cert_hash'', PStr combined), (''file_hash'', PStr fhash),
      (''student_name'', PStr student), (''course'', PStr course), (''year'', PStr year),
      (''owner'', PStr student)]"

datatype mint_result = MintFileError pyerr | MintDuplicate string | Minted string block

definition mint_flow ::
  "lib \<Rightarrow> (string \<Rightarrow> string option) \<Rightarrow> pyfloat \<Rightarrow> pyfloat \<Rightarrow> string \<Rightarrow> string \<Rightarrow> string \<Rightarrow> string
     \<Rightarrow> blockchain \<Rightarrow> pyerr + (blockchain \<times> mint_result)" where
  \<comment> \<open>the four strings are the answers to the prompts; \<^verbatim>\<open>Inl\<close> is an exception that
      leaves the flow\<close>
  "mint_flow L files t1 t2 student course year file_path s =
     (case file_sha256 L files file_path of
        Inl e \<Rightarrow> Inr (s, MintFileError e)
      | Inr fhash \<Rightarrow>
          (let combined = cert_fingerprint L fhash student course year in
           case has_cert_hash s combined of
             Inl e \<Rightarrow> Inl e
           | Inr True \<Rightarrow> Inr (s, MintDuplicate combined)
           | Inr False \<Rightarrow>
               (case add_block L t1 t2 (mint_data combined fhash student course year) s of
                  Inl e \<Rightarrow> Inl e
                | Inr (s', b) \<Rightarrow> Inr (s', Minted combined b))))"

fun owner_loop :: "pyval \<Rightarrow> pyval list \<Rightarrow> pyerr + pyval" where
  "owner_loop current_owner [] = Inr current_owner"
| "owner_loop current_owner (h # hs) =
     (case subscript h ''data'' of
        Inl e \<Rightarrow> Inl e
      | Inr d \<Rightarrow>
          (case dict_get d ''type'' PNone of
             Inl e \<Rightarrow> Inl e
           | Inr ty \<Rightarrow>
               if ty = PStr ''MINT'' then
                 (case dict_get d ''owner'' current_owner of
                    Inl e \<Rightarrow> Inl e
                  | Inr v \<Rightarrow> owner_loop v hs)
               else if ty = PStr ''TRANSFER'' then
                 (case dict_get d ''to'' current_owner of
                    Inl e \<Rightarrow> Inl e
                  | Inr v \<Rightarrow> owner_loop v hs)
               else owner_loop current_owner hs))"

definition resolve_owner :: "pyval list \<Rightarrow> pyerr + pyval" where
  \<comment> \<open>the loop of \<^verbatim>\<open>transfer_flow\<close> and of \<^verbatim>\<open>verify_flow\<close>, from
      \<^verbatim>\<open>current_owner = None\<close>\<close>
  "resolve_owner hist = owner_loop PNone hist"

definition transfer_data :: "string \<Rightarrow> pyval \<Rightarrow> string \<Rightarrow> pyval" where
  "transfer_data cert_hash current_owner new_owner = PDict
     [(''type'', PStr ''TRANSFER''), (''cert_hash'', PStr cert_hash),
      (''from'', current_owner), (''to'', PStr new_owner)]"

datatype transfer_result = TransferNotFound | Transferred block

definition transfer_flow ::
  "lib \<Rightarrow> pyfloat \<Rightarrow> pyfloat \<Rightarrow> string \<Rightarrow> string \<Rightarrow> blockchain
     \<Rightarrow> pyerr + (blockchain \<times> transfer_result)" where
  "transfer_flow L t1 t2 cert_hash new_owner s =
     (case history s cert_hash of
        Inl e \<Rightarrow> Inl e
      | Inr hist \<Rightarrow>
          if hist = [] then Inr (s, TransferNotFound)
          else
            (case resolve_owner hist of
               Inl e \<Rightarrow> Inl e
             | Inr current_owner \<Rightarrow>
                 (case add_block L t1 t2 (transfer_data cert_hash current_owner new_owner) s of
                    Inl e \<Rightarrow> Inl e
                  | Inr (s', b) \<Rightarrow> Inr (s', Transferred b))))"

text \<open>A run: a sequence of appends, each with its payload and its two clock readings.\<close>

fun appends :: "lib \<Rightarrow> (pyval \<times> pyfloat \<times> pyfloat) list \<Rightarrow> blockchain \<Rightarrow> pyerr + blockchain" where
  "appends L [] s = Inr s"
| "appends L ((d, t1, t2) # ops) s =
     (case add_block L t1 t2 d s of
        Inl e \<Rightarrow> Inl e
      | Inr (s', b) \<Rightarrow> appends L ops s')"

text \<open>
  A stand-in for the library, to evaluate the definitions on concrete inputs: the digest is
  the identity (so it has no collisions), and the printers are simple renderings.
\<close>

definition demo_int :: "int \<Rightarrow> string" where
  "demo_int i = (if i < 0 then ''-'' else []) @ replicate (nat \<bar>i\<bar>) (CHR ''1'')"

fun demo_repr :: "pyval \<Rightarrow> string" where
  "demo_repr PNone = ''None''"
| "demo_repr (PBool b) = (if b then ''True'' else ''False'')"
| "demo_repr (PInt i) = demo_int i"
| "demo_repr (PFloat (PyFloat m e)) = demo_int m @ ''e'' @ demo_int e"
| "demo_repr (PStr s) = ''<'' @ s @ ''>''"
| "demo_repr (PList vs) = ''['' @ concat (map (\<lambda>v. demo_repr v @ '','') vs) @ '']''"
| "demo_repr (PDict kvs) =
     ''{'' @ concat (map (\<lambda>(k, v). k @ '':'' @ demo_repr v @ '','') kvs) @ ''}''"

definition demo_lib :: lib where
  "demo_lib = \<lparr>sha256_hex = (\<lambda>s. s), py_repr = demo_repr, py_str = demo_repr\<rparr>"

section \<open>Auxiliary notions\<close>

text \<open>The block that \<^verbatim>\<open>add_block\<close> builds, and the linkage invariant of a chain.\<close>

definition new_block :: "lib \<Rightarrow> pyfloat \<Rightarrow> pyfloat \<Rightarrow> pyval \<Rightarrow> blockchain \<Rightarrow> block" where
  "new_block L t1 t2 d s =
     \<lparr>index = PInt (int (length (chain_blocks s))), timestamp = PFloat t2,
      prev_hash = current_hash (last (chain_blocks s)), data = d,
      current_hash = PStr (compute_hash L t1 s d (current_hash (last (chain_blocks s))))\<rparr>"

definition chain_ok :: "block list \<Rightarrow> bool" where
  "chain_ok bs \<longleftrightarrow>
     bs \<noteq> [] \<and> prev_hash (bs ! 0) = PStr sentinel \<and>
     (\<forall>i. 0 < i \<and> i < length bs \<longrightarrow> prev_hash (bs ! i) = current_hash (bs ! (i - 1))) \<and>
     (\<forall>i < length bs. index (bs ! i) = PInt (int i))"

text \<open>
  The hash of an appended block, as the Hash Linker computes it from the payload, the
  previous hash (a string), the chain length \<open>n\<close> and the clock reading \<open>t\<close>.
\<close>

definition hash_ok :: "lib \<Rightarrow> block \<Rightarrow> nat \<Rightarrow> pyfloat \<Rightarrow> bool" where
  "hash_ok L b n t =
     (case prev_hash b of
        PStr ph \<Rightarrow>
          current_hash b =
            PStr (sha256_hex L (py_repr L (data b) @ ''|'' @ ph @ ''|''
                   @ format_value L (PInt (int n)) @ ''|'' @ format_value L (PFloat t)))
      | _ \<Rightarrow> False)"

text \<open>A payload that is a dictionary, and a block whose payload carries a fingerprint.\<close>

fun is_dict :: "pyval \<Rightarrow> bool" where
  "is_dict (PDict kvs) = True"
| "is_dict v = False"

definition carries :: "block \<Rightarrow> string \<Rightarrow> bool" where
  "carries b c \<longleftrightarrow> dict_get (data b) ''cert_hash'' PNone = Inr (PStr c)"

text \<open>A sequence of transfers of one certificate, each to a new owner.\<close>

fun transfers ::
  "lib \<Rightarrow> string \<Rightarrow> (string \<times> pyfloat \<times> pyfloat) list \<Rightarrow> blockchain \<Rightarrow> pyerr + blockchain" where
  "transfers L c [] s = Inr s"
| "transfers L c ((new_owner, t1, t2) # ws) s =
     (case transfer_flow L t1 t2 c new_owner s of
        Inl e \<Rightarrow> Inl e
      | Inr (s', r) \<Rightarrow> transfers L c ws s')"

text \<open>Concrete inputs for evaluating the flows with the stand-in library.\<close>

definition demo_files :: "string \<Rightarrow> string option" where
  "demo_files p = (if p = ''a.pdf'' then Some ''H1'' else None)"

definition demo_state :: blockchain where
  "demo_state = create_genesis demo_lib (PyFloat 0 0) \<lparr>chain_blocks = [], chain_file = Absent\<rparr>"

definition demo_mint_block :: block where
  "demo_mint_block =
     \<lparr>index = PInt 1, timestamp = PFloat (PyFloat 1 0), prev_hash = PStr ''g'',
      data = mint_data ''F'' ''H1'' ''Ana'' ''CS101'' ''2025'', current_hash = PStr ''m''\<rparr>"

definition demo_minted :: blockchain where
  "demo_minted =
     \<lparr>chain_blocks = [genesis_block demo_lib (PyFloat 0 0), demo_mint_block], chain_file = Absent\<rparr>"

text \<open>
  A Mint payload with a given \<open>owner\<close> field, and a Transfer payload with a given \<open>to\<close>
  field, whatever their other fields.
\<close>

definition mint_payload :: "(string \<times> pyval) list \<Rightarrow> pyval \<Rightarrow> bool" where
  "mint_payload kvs a \<longleftrightarrow>
     map_of kvs ''type'' = Some (PStr ''MINT'') \<and> map_of kvs ''owner'' = Some a"

definition transfer_payload :: "(string \<times> pyval) list \<Rightarrow> pyval \<Rightarrow> bool" where
  "transfer_payload kvs a \<longleftrightarrow>
     map_of kvs ''type'' = Some (PStr ''TRANSFER'') \<and> map_of kvs ''to'' = Some a"

text \<open>
  History entries whose owner differs from the student, and a block whose payload is not a
  dictionary, as a chain file can hold one.
\<close>

definition demo_registrar_mint :: pyval where
  "demo_registrar_mint = PDict
     [(''data'', PDict [(''type'', PStr ''MINT''), (''cert_hash'', PStr ''F''),
        (''student_name'', PStr ''Ana''), (''owner'', PStr ''Registrar'')])]"

definition demo_transfer_to :: "string \<Rightarrow> pyval" where
  "demo_transfer_to b = PDict
     [(''data'', PDict [(''type'', PStr ''TRANSFER''), (''cert_hash'', PStr ''F''),
        (''from'', PNone), (''to'', PStr b)])]"

definition demo_bad_block :: block where
  "demo_bad_block =
     \<lparr>index = PInt 0, timestamp = PInt 0, prev_hash = PStr ''p'', data = PNone,
      current_hash = PStr ''b''\<rparr>"

definition demo_bad_last :: blockchain where
  "demo_bad_last =
     \<lparr>chain_blocks = [demo_mint_block, demo_bad_block], chain_file = Absent\<rparr>"

section \<open>Basic facts about saving and appending\<close>


lemma chain_blocks_save: "chain_blocks (save s) = chain_blocks s"
  by (simp add: save_def)

lemma chain_file_save: "chain_file (save s) = Stored (PList (map asdict (chain_blocks s)))"
  by (simp add: save_def serialize_def)

lemma chain_blocks_create_genesis: "chain_blocks (create_genesis L t s) = [genesis_block L t]"
  by (simp add: create_genesis_def chain_blocks_save)

lemma add_block_empty: "chain_blocks s = [] \<Longrightarrow> add_block L t1 t2 d s = Inl IndexError"
  by (simp add: add_block_def last_block_def)

lemma add_block_nonempty:
  "chain_blocks s \<noteq> [] \<Longrightarrow>
   add_block L t1 t2 d s =
     Inr (save (s\<lparr>chain_blocks := chain_blocks s @ [new_block L t1 t2 d s]\<rparr>), new_block L t1 t2 d s)"
  by (simp add: add_block_def last_block_def new_block_def Let_def)

lemma add_block_Inr:
  assumes "add_block L t1 t2 d s = Inr (s', b)"
  shows "chain_blocks s \<noteq> [] \<and> b = new_block L t1 t2 d s \<and>
         chain_blocks s' = chain_blocks s @ [b] \<and>
         chain_file s' = Stored (PList (map asdict (chain_blocks s @ [b])))"
proof (cases "chain_blocks s = []")
  case True
  with assms show ?thesis by (simp add: add_block_empty)
next
  case False
  with assms show ?thesis
    by (auto simp: add_block_nonempty chain_blocks_save chain_file_save)
qed

lemma chain_ok_genesis: "chain_ok [genesis_block L t]"
  by (simp add: chain_ok_def genesis_block_def)

lemma chain_ok_snoc:
  assumes "chain_ok bs" "index b = PInt (int (length bs))" "prev_hash b = current_hash (last bs)"
  shows "chain_ok (bs @ [b])"
proof -
  from assms(1) have ne: "bs \<noteq> []" by (simp add: chain_ok_def)
  have l: "last bs = bs ! (length bs - 1)" using ne by (simp add: last_conv_nth)
  show ?thesis
    unfolding chain_ok_def
  proof (intro conjI allI impI)
    show "bs @ [b] \<noteq> []" by simp
    show "prev_hash ((bs @ [b]) ! 0) = PStr sentinel"
      using assms(1) ne by (simp add: chain_ok_def nth_append)
  next
    fix i assume i: "0 < i \<and> i < length (bs @ [b])"
    show "prev_hash ((bs @ [b]) ! i) = current_hash ((bs @ [b]) ! (i - 1))"
    proof (cases "i < length bs")
      case True
      then have "i - 1 < length bs" by simp
      with True i assms(1) show ?thesis by (simp add: chain_ok_def nth_append)
    next
      case False
      with i have "i = length bs" by simp
      with ne assms(3) l show ?thesis by (simp add: nth_append)
    qed
  next
    fix i assume i: "i < length (bs @ [b])"
    show "index ((bs @ [b]) ! i) = PInt (int i)"
    proof (cases "i < length bs")
      case True
      with assms(1) show ?thesis by (simp add: chain_ok_def nth_append)
    next
      case False
      with i have "i = length bs" by simp
      with assms(2) show ?thesis by (simp add: nth_append)
    qed
  qed
qed

lemma chain_ok_add_block:
  assumes "chain_ok (chain_blocks s)"
  shows "\<exists>s' b. add_block L t1 t2 d s = Inr (s', b) \<and> chain_ok (chain_blocks s')"
proof -
  from assms have ne: "chain_blocks s \<noteq> []" by (simp add: chain_ok_def)
  have "chain_ok (chain_blocks s @ [new_block L t1 t2 d s])"
    by (rule chain_ok_snoc[OF assms]) (simp_all add: new_block_def)
  with ne show ?thesis by (simp add: add_block_nonempty chain_blocks_save)
qed

lemma appends_chain_ok:
  "chain_ok (chain_blocks s) \<Longrightarrow> \<exists>s'. appends L ops s = Inr s' \<and> chain_ok (chain_blocks s')"
proof (induction ops arbitrary: s)
  case Nil
  then show ?case by simp
next
  case (Cons op ops)
  obtain d t1 t2 where op: "op = (d, t1, t2)" by (cases op) auto
  from chain_ok_add_block[OF Cons.prems, of L t1 t2 d]
  obtain s1 b where a: "add_block L t1 t2 d s = Inr (s1, b)" and ok: "chain_ok (chain_blocks s1)"
    by blast
  from Cons.IH[OF ok] obtain s' where "appends L ops s1 = Inr s'" "chain_ok (chain_blocks s')"
    by blast
  with a op show ?case by simp
qed

text \<open>
  C1. Every chain obtained from genesis creation by a sequence of appends is non-empty; its
  block 0 has the all-zero 64-character sentinel as \<open>prev_hash\<close>; for every \<open>i > 0\<close> the
  \<open>prev_hash\<close> of block \<open>i\<close> is the \<open>current_hash\<close> of block \<open>i - 1\<close>; and the \<open>index\<close> of
  every block is its position. The appends never fail.
\<close>

theorem genesis_appends_linked:
  "\<exists>s'. appends L ops (create_genesis L t0 s0) = Inr s' \<and>
     chain_blocks s' \<noteq> [] \<and>
     prev_hash (chain_blocks s' ! 0) = PStr (replicate 64 (CHR ''0'')) \<and>
     (\<forall>i. 0 < i \<and> i < length (chain_blocks s') \<longrightarrow>
        prev_hash (chain_blocks s' ! i) = current_hash (chain_blocks s' ! (i - 1))) \<and>
     (\<forall>i < length (chain_blocks s'). index (chain_blocks s' ! i) = PInt (int i))"
proof -
  have "chain_ok (chain_blocks (create_genesis L t0 s0))"
    by (simp add: chain_blocks_create_genesis chain_ok_genesis)
  from appends_chain_ok[OF this, of L ops] show ?thesis
    unfolding chain_ok_def sentinel_def by blast
qed


lemma demo_run:
  "appends demo_lib [(PNone, PyFloat 1 0, PyFloat 2 0)]
     (create_genesis demo_lib (PyFloat 0 0) \<lparr>chain_blocks = [], chain_file = Absent\<rparr>) = Inr s
   \<Longrightarrow> length (chain_blocks s) = 2"
  by (auto simp: create_genesis_def save_def add_block_def last_block_def Let_def)

theorem genesis_appends_linked_witness:
  "\<exists>s'. appends demo_lib [(PNone, PyFloat 1 0, PyFloat 2 0)]
          (create_genesis demo_lib (PyFloat 0 0) \<lparr>chain_blocks = [], chain_file = Absent\<rparr>) = Inr s' \<and>
        (0::nat) < 1 \<and> 1 < length (chain_blocks s') \<and>
        prev_hash (chain_blocks s' ! 0) = PStr (replicate 64 (CHR ''0'')) \<and>
        prev_hash (chain_blocks s' ! 1) = current_hash (chain_blocks s' ! (1 - 1)) \<and>
        index (chain_blocks s' ! 1) = PInt (int 1)"
proof -
  from genesis_appends_linked[of demo_lib "[(PNone, PyFloat 1 0, PyFloat 2 0)]" "PyFloat 0 0"
      "\<lparr>chain_blocks = [], chain_file = Absent\<rparr>"]
  obtain s' where
    run: "appends demo_lib [(PNone, PyFloat 1 0, PyFloat 2 0)]
          (create_genesis demo_lib (PyFloat 0 0) \<lparr>chain_blocks = [], chain_file = Absent\<rparr>) = Inr s'"
    and p0: "prev_hash (chain_blocks s' ! 0) = PStr (replicate 64 (CHR ''0''))"
    and link: "\<forall>i. 0 < i \<and> i < length (chain_blocks s') \<longrightarrow>
        prev_hash (chain_blocks s' ! i) = current_hash (chain_blocks s' ! (i - 1))"
    and idx: "\<forall>i < length (chain_blocks s'). index (chain_blocks s' ! i) = PInt (int i)"
    by blast
  have len: "length (chain_blocks s') = 2" by (rule demo_run[OF run])
  then have h: "(0::nat) < 1 \<and> 1 < length (chain_blocks s')" by simp
  from link h have "prev_hash (chain_blocks s' ! 1) = current_hash (chain_blocks s' ! (1 - 1))"
    by blast
  moreover from idx h have "index (chain_blocks s' ! 1) = PInt (int 1)" by blast
  ultimately show ?thesis using run p0 h by blast
qed

section \<open>Appending a block\<close>

text \<open>
  C2. On a non-empty chain of length \<open>N\<close>, \<^verbatim>\<open>add_block\<close> succeeds for every payload: the
  chain has length \<open>N + 1\<close>, its new last block is the block returned, with index \<open>N\<close>,
  \<open>prev_hash\<close> the \<open>current_hash\<close> of the previous last block, the payload given, and the hash
  that \<^verbatim>\<open>compute_hash\<close> gives for the payload, that \<open>prev_hash\<close> and the chain of length \<open>N\<close>;
  the first \<open>N\<close> blocks are unchanged, and the whole chain is saved.
\<close>

theorem add_block_extends:
  assumes "chain_blocks s \<noteq> []"
  shows "\<exists>s' b. add_block L t1 t2 d s = Inr (s', b) \<and>
     length (chain_blocks s') = length (chain_blocks s) + 1 \<and>
     last (chain_blocks s') = b \<and>
     index b = PInt (int (length (chain_blocks s))) \<and>
     prev_hash b = current_hash (last (chain_blocks s)) \<and>
     data b = d \<and>
     current_hash b = PStr (compute_hash L t1 s d (prev_hash b)) \<and>
     take (length (chain_blocks s)) (chain_blocks s') = chain_blocks s \<and>
     chain_file s' = Stored (serialize s')"
  using assms
  by (simp add: add_block_nonempty chain_blocks_save new_block_def save_def serialize_def)

theorem add_block_extends_witness:
  "chain_blocks (create_genesis demo_lib (PyFloat 0 0) \<lparr>chain_blocks = [], chain_file = Absent\<rparr>) \<noteq> [] \<and>
   (\<exists>s' b. add_block demo_lib (PyFloat 1 0) (PyFloat 2 0) PNone
       (create_genesis demo_lib (PyFloat 0 0) \<lparr>chain_blocks = [], chain_file = Absent\<rparr>) = Inr (s', b) \<and>
     length (chain_blocks s') = 2 \<and> last (chain_blocks s') = b \<and> index b = PInt 1 \<and>
     prev_hash b = PStr (demo_repr genesis_data) \<and> data b = PNone)"
proof -
  let ?g = "create_genesis demo_lib (PyFloat 0 0) \<lparr>chain_blocks = [], chain_file = Absent\<rparr>"
  have ne: "chain_blocks ?g \<noteq> []" by (simp add: chain_blocks_create_genesis)
  have l: "last (chain_blocks ?g) = genesis_block demo_lib (PyFloat 0 0)"
    by (simp add: chain_blocks_create_genesis)
  have len: "length (chain_blocks ?g) = 1" by (simp add: chain_blocks_create_genesis)
  have h: "current_hash (genesis_block demo_lib (PyFloat 0 0)) = PStr (demo_repr genesis_data)"
    by (simp add: genesis_block_def demo_lib_def)
  from add_block_extends[OF ne, of demo_lib "PyFloat 1 0" "PyFloat 2 0" PNone]
  show ?thesis using ne unfolding l len h by auto
qed

section \<open>Resolving the owner\<close>


lemma owner_loop_append:
  "owner_loop cur (hs @ hs') =
     (case owner_loop cur hs of Inl e \<Rightarrow> Inl e | Inr v \<Rightarrow> owner_loop v hs')"
  by (induction hs arbitrary: cur) (auto split: sum.splits)

lemma owner_loop_mint:
  assumes "subscript h ''data'' = Inr (PDict kvs)" "mint_payload kvs a"
  shows "owner_loop cur (h # hs) = owner_loop a hs"
  using assms by (simp add: mint_payload_def dict_get_def)

lemma owner_loop_transfer:
  assumes "subscript h ''data'' = Inr (PDict kvs)" "transfer_payload kvs a"
  shows "owner_loop cur (h # hs) = owner_loop a hs"
  using assms by (simp add: transfer_payload_def dict_get_def)

text \<open>
  C3. The owner loop scans a history from oldest to newest, starting from \<open>None\<close>. A Mint
  sets the owner to its \<open>owner\<close> field and a Transfer overwrites it with its \<open>to\<close> field,
  whatever the other fields are and whatever came before in the history: the last write
  wins. So the loop gives \<open>None\<close> on the empty history, \<open>A\<close> on a Mint with owner \<open>A\<close>,
  \<open>B\<close> after a Transfer to \<open>B\<close>, and \<open>C\<close> after a further Transfer to \<open>C\<close>.
\<close>

theorem resolve_owner_last_write:
  assumes m: "subscript h1 ''data'' = Inr (PDict k1)" "mint_payload k1 A"
    and t2: "subscript h2 ''data'' = Inr (PDict k2)" "transfer_payload k2 B"
    and t3: "subscript h3 ''data'' = Inr (PDict k3)" "transfer_payload k3 C"
    and pre: "owner_loop cur hs = Inr v"
  shows "resolve_owner [] = Inr PNone \<and>
         resolve_owner [h1] = Inr A \<and>
         resolve_owner [h1, h2] = Inr B \<and>
         resolve_owner [h1, h2, h3] = Inr C \<and>
         owner_loop cur (hs @ [h1]) = Inr A \<and>
         owner_loop cur (hs @ [h2]) = Inr B"
proof -
  have a: "resolve_owner [] = Inr PNone" by (simp add: resolve_owner_def)
  note mint = owner_loop_mint[OF m] and tr2 = owner_loop_transfer[OF t2]
    and tr3 = owner_loop_transfer[OF t3]
  have b: "resolve_owner [h1] = Inr A"
    by (simp only: resolve_owner_def mint owner_loop.simps(1))
  have c: "resolve_owner [h1, h2] = Inr B"
    by (simp only: resolve_owner_def mint tr2 owner_loop.simps(1))
  have d: "resolve_owner [h1, h2, h3] = Inr C"
    by (simp only: resolve_owner_def mint tr2 tr3 owner_loop.simps(1))
  have e: "owner_loop cur (hs @ [h1]) = Inr A"
    by (simp only: owner_loop_append pre sum.case mint owner_loop.simps(1))
  have f: "owner_loop cur (hs @ [h2]) = Inr B"
    by (simp only: owner_loop_append pre sum.case tr2 owner_loop.simps(1))
  from a b c d e f show ?thesis by simp
qed

lemma demo_registrar_data:
  "subscript demo_registrar_mint ''data'' =
     Inr (PDict [(''type'', PStr ''MINT''), (''cert_hash'', PStr ''F''),
        (''student_name'', PStr ''Ana''), (''owner'', PStr ''Registrar'')])"
  by (simp add: demo_registrar_mint_def subscript_def)

lemma demo_transfer_data:
  "subscript (demo_transfer_to b) ''data'' =
     Inr (PDict [(''type'', PStr ''TRANSFER''), (''cert_hash'', PStr ''F''),
        (''from'', PNone), (''to'', PStr b)])"
  by (simp add: demo_transfer_to_def subscript_def)

theorem resolve_owner_last_write_witness:
  "mint_payload [(''type'', PStr ''MINT''), (''cert_hash'', PStr ''F''),
        (''student_name'', PStr ''Ana''), (''owner'', PStr ''Registrar'')] (PStr ''Registrar'') \<and>
   transfer_payload [(''type'', PStr ''TRANSFER''), (''cert_hash'', PStr ''F''),
        (''from'', PNone), (''to'', PStr ''Bo'')] (PStr ''Bo'') \<and>
   owner_loop PNone [demo_transfer_to ''Cy''] = Inr (PStr ''Cy'') \<and>
   resolve_owner [demo_registrar_mint] = Inr (PStr ''Registrar'') \<and>
   resolve_owner [demo_registrar_mint, demo_transfer_to ''Bo''] = Inr (PStr ''Bo'') \<and>
   resolve_owner [demo_registrar_mint, demo_transfer_to ''Bo'', demo_transfer_to ''Cy'']
     = Inr (PStr ''Cy'') \<and>
   owner_loop PNone ([demo_transfer_to ''Cy''] @ [demo_registrar_mint]) = Inr (PStr ''Registrar'') \<and>
   owner_loop PNone ([demo_transfer_to ''Cy''] @ [demo_transfer_to ''Bo'']) = Inr (PStr ''Bo'')"
proof -
  have m: "mint_payload [(''type'', PStr ''MINT''), (''cert_hash'', PStr ''F''),
        (''student_name'', PStr ''Ana''), (''owner'', PStr ''Registrar'')] (PStr ''Registrar'')"
    by (simp add: mint_payload_def)
  have t2: "transfer_payload [(''type'', PStr ''TRANSFER''), (''cert_hash'', PStr ''F''),
        (''from'', PNone), (''to'', PStr ''Bo'')] (PStr ''Bo'')"
    by (simp add: transfer_payload_def)
  have t3: "transfer_payload [(''type'', PStr ''TRANSFER''), (''cert_hash'', PStr ''F''),
        (''from'', PNone), (''to'', PStr ''Cy'')] (PStr ''Cy'')"
    by (simp add: transfer_payload_def)
  have pre: "owner_loop PNone [demo_transfer_to ''Cy''] = Inr (PStr ''Cy'')"
    by (simp add: demo_transfer_to_def subscript_def dict_get_def)
  note r = resolve_owner_last_write[OF demo_registrar_data m demo_transfer_data t2
      demo_transfer_data t3 pre]
  from r m t2 pre show ?thesis by simp
qed

section \<open>Saving and loading\<close>

lemma block_of_asdict: "block_of (asdict b) = Inr b"
  by (simp add: block_of_def asdict_def block_fields_def)

lemma load_blocks_asdict: "load_blocks (map asdict bs) = Inr bs"
  by (induction bs) (simp_all add: block_of_asdict)

text \<open>
  C9. Loading what \<^verbatim>\<open>serialize\<close> produced gives back the chain, block for block and
  field for field (index, timestamp, \<open>prev_hash\<close>, payload and \<open>current_hash\<close>); the stored
  \<open>current_hash\<close> is taken as it is, whatever its value. So a ledger initialised from a
  saved chain file has the chain that was saved.
\<close>

theorem serialize_load_roundtrip:
  "load (serialize s) = Inr (chain_blocks s) \<and>
   chain_blocks (init L t (chain_file (save s))) = chain_blocks s \<and>
   chain_file (init L t (chain_file (save s))) = chain_file (save s)"
  by (simp add: load_def serialize_def load_blocks_asdict init_def save_def)

section \<open>The hash of the genesis block\<close>

text \<open>
  C10. The genesis block's \<open>current_hash\<close> is the digest of the representation of its payload
  alone: two genesis creations, at any times and from any states, give the same
  \<open>current_hash\<close>. The hash of an appended block is the digest of a text that ends with the
  clock reading, and with a collision-free digest two readings give two hashes.
\<close>

theorem genesis_hash_deterministic:
  "chain_blocks (create_genesis L t s) = [genesis_block L t] \<and>
   current_hash (genesis_block L t) = PStr (sha256_hex L (py_repr L genesis_data)) \<and>
   current_hash (hd (chain_blocks (create_genesis L t s))) =
     current_hash (hd (chain_blocks (create_genesis L t' s'))) \<and>
   compute_hash L t1 s d ph =
     sha256_hex L (py_repr L d @ ''|'' @ format_value L ph @ ''|''
       @ format_value L (PInt (int (length (chain_blocks s)))) @ ''|''
       @ format_value L (PFloat t1)) \<and>
   compute_hash demo_lib (PyFloat 1 0) s d ph \<noteq> compute_hash demo_lib (PyFloat 2 0) s d ph"
  by (simp add: chain_blocks_create_genesis genesis_block_def compute_hash_def demo_lib_def
      format_value_def demo_int_def numeral_2_eq_2)

section \<open>The hash of every block\<close>


lemma appends_snoc:
  "appends L (ops @ [op]) s =
     (case appends L ops s of
        Inl e \<Rightarrow> Inl e
      | Inr s1 \<Rightarrow> appends L [op] s1)"
  by (induction ops arbitrary: s) (auto split: sum.splits prod.splits)

lemma run_hashes:
  "appends L ops (create_genesis L t0 s0) = Inr s \<Longrightarrow>
     length (chain_blocks s) = Suc (length ops) \<and>
     chain_blocks s ! 0 = genesis_block L t0 \<and>
     (\<forall>b \<in> set (chain_blocks s). \<exists>h. current_hash b = PStr h) \<and>
     (\<forall>i < length ops. data (chain_blocks s ! Suc i) = fst (ops ! i) \<and>
        hash_ok L (chain_blocks s ! Suc i) (Suc i) (fst (snd (ops ! i))))"
proof (induction ops arbitrary: s rule: rev_induct)
  case Nil
  then show ?case by (auto simp: chain_blocks_create_genesis genesis_block_def)
next
  case (snoc op ops)
  obtain d t1 t2 where op: "op = (d, t1, t2)" by (cases op) auto
  from snoc.prems obtain s1 where
    r1: "appends L ops (create_genesis L t0 s0) = Inr s1" and r2: "appends L [op] s1 = Inr s"
    by (auto simp: appends_snoc split: sum.splits)
  from r2 op obtain b where ab: "add_block L t1 t2 d s1 = Inr (s, b)"
    by (auto split: sum.splits)
  note ih = snoc.IH[OF r1]
  from add_block_Inr[OF ab] have
    b: "b = new_block L t1 t2 d s1" and ch: "chain_blocks s = chain_blocks s1 @ [b]"
    and ne: "chain_blocks s1 \<noteq> []"
    by simp_all
  from ih have len1: "length (chain_blocks s1) = Suc (length ops)" by simp
  from ih ne obtain h where h: "current_hash (last (chain_blocks s1)) = PStr h"
    using last_in_set by blast
  have cb: "current_hash b = PStr (compute_hash L t1 s1 d (PStr h))" and pb: "prev_hash b = PStr h"
    and db: "data b = d"
    using b h by (simp_all add: new_block_def)
  have hb: "hash_ok L b (Suc (length ops)) t1"
    using cb pb db len1 by (simp add: hash_ok_def compute_hash_def format_value_def)
  show ?case
  proof (intro conjI ballI allI impI)
    show "length (chain_blocks s) = Suc (length (ops @ [op]))" using ch len1 by simp
    show "chain_blocks s ! 0 = genesis_block L t0" using ch ih ne by (simp add: nth_append)
  next
    fix x assume "x \<in> set (chain_blocks s)"
    then show "\<exists>h. current_hash x = PStr h" using ch ih cb by auto
  next
    fix i assume i: "i < length (ops @ [op])"
    show "data (chain_blocks s ! Suc i) = fst ((ops @ [op]) ! i)"
    proof (cases "i < length ops")
      case True
      with ih ch len1 show ?thesis by (simp add: nth_append)
    next
      case False
      with i have "i = length ops" by simp
      with ch len1 db op show ?thesis by (simp add: nth_append)
    qed
    show "hash_ok L (chain_blocks s ! Suc i) (Suc i) (fst (snd ((ops @ [op]) ! i)))"
    proof (cases "i < length ops")
      case True
      with ih ch len1 show ?thesis by (simp add: nth_append)
    next
      case False
      with i have "i = length ops" by simp
      with ch len1 hb op show ?thesis by (simp add: nth_append)
    qed
  qed
qed

text \<open>
  C4 (amended). In a chain obtained from genesis creation by appends, the \<open>current_hash\<close> of
  block 0 is the digest of the representation of its payload alone, and the \<open>current_hash\<close>
  of every appended block is the digest of the representation of its payload, its
  \<open>prev_hash\<close>, the chain length at its creation and the clock reading taken in
  \<^verbatim>\<open>compute_hash\<close>, joined by \<open>|\<close>.
\<close>

theorem block_hash_formula:
  assumes "appends L ops (create_genesis L t0 s0) = Inr s"
  shows "current_hash (chain_blocks s ! 0) =
           PStr (sha256_hex L (py_repr L (data (chain_blocks s ! 0)))) \<and>
         (\<forall>i < length ops. \<exists>ph.
            prev_hash (chain_blocks s ! Suc i) = PStr ph \<and>
            data (chain_blocks s ! Suc i) = fst (ops ! i) \<and>
            current_hash (chain_blocks s ! Suc i) =
              PStr (sha256_hex L (py_repr L (fst (ops ! i)) @ ''|'' @ ph @ ''|''
                     @ format_value L (PInt (int (Suc i))) @ ''|''
                     @ format_value L (PFloat (fst (snd (ops ! i)))))))"
proof -
  note r = run_hashes[OF assms]
  have g: "current_hash (chain_blocks s ! 0) =
           PStr (sha256_hex L (py_repr L (data (chain_blocks s ! 0))))"
    using r by (simp add: genesis_block_def)
  have "\<exists>ph. prev_hash (chain_blocks s ! Suc i) = PStr ph \<and>
            data (chain_blocks s ! Suc i) = fst (ops ! i) \<and>
            current_hash (chain_blocks s ! Suc i) =
              PStr (sha256_hex L (py_repr L (fst (ops ! i)) @ ''|'' @ ph @ ''|''
                     @ format_value L (PInt (int (Suc i))) @ ''|''
                     @ format_value L (PFloat (fst (snd (ops ! i))))))"
    if "i < length ops" for i
  proof -
    from r that have d: "data (chain_blocks s ! Suc i) = fst (ops ! i)"
      and h: "hash_ok L (chain_blocks s ! Suc i) (Suc i) (fst (snd (ops ! i)))" by simp_all
    from h d show ?thesis
      by (cases "prev_hash (chain_blocks s ! Suc i)") (simp_all add: hash_ok_def)
  qed
  with g show ?thesis by blast
qed

theorem block_hash_formula_witness:
  "\<exists>s. appends demo_lib [(PNone, PyFloat 1 0, PyFloat 2 0)]
          (create_genesis demo_lib (PyFloat 0 0) \<lparr>chain_blocks = [], chain_file = Absent\<rparr>) = Inr s \<and>
     (0::nat) < length [(PNone, PyFloat 1 0, PyFloat 2 0)] \<and>
     current_hash (chain_blocks s ! 0) =
       PStr (sha256_hex demo_lib (py_repr demo_lib (data (chain_blocks s ! 0)))) \<and>
     (\<exists>ph. prev_hash (chain_blocks s ! Suc 0) = PStr ph \<and>
        data (chain_blocks s ! Suc 0) = PNone \<and>
        current_hash (chain_blocks s ! Suc 0) =
          PStr (sha256_hex demo_lib (py_repr demo_lib PNone @ ''|'' @ ph @ ''|''
                 @ format_value demo_lib (PInt (int (Suc 0))) @ ''|''
                 @ format_value demo_lib (PFloat (PyFloat 1 0)))))"
proof -
  let ?ops = "[(PNone, PyFloat 1 0, PyFloat 2 0)]"
  let ?g = "create_genesis demo_lib (PyFloat 0 0) \<lparr>chain_blocks = [], chain_file = Absent\<rparr>"
  have "chain_ok (chain_blocks ?g)"
    by (simp add: chain_blocks_create_genesis chain_ok_genesis)
  from appends_chain_ok[OF this, of demo_lib ?ops]
  obtain s where run: "appends demo_lib ?ops ?g = Inr s" by blast
  have i: "(0::nat) < length ?ops" by simp
  from block_hash_formula[OF run] i show ?thesis using run by fastforce
qed

text \<open>
  C4 as stated fails at the genesis block: its hash is not what the Hash Linker gives for
  the genesis payload, the sentinel, the creation time and the chain length, be it the
  length 0 before the block is there or the length 1 after.
\<close>

theorem genesis_hash_counterexample:
  "current_hash (hd (chain_blocks demo_state)) \<noteq>
     PStr (compute_hash demo_lib (PyFloat 0 0) \<lparr>chain_blocks = [], chain_file = Absent\<rparr>
             genesis_data (PStr sentinel)) \<and>
   current_hash (hd (chain_blocks demo_state)) \<noteq>
     PStr (compute_hash demo_lib (PyFloat 0 0) demo_state genesis_data (PStr sentinel))"
  by (simp add: demo_state_def chain_blocks_create_genesis genesis_block_def compute_hash_def
      demo_lib_def)

section \<open>Load failures\<close>


lemma block_of_extra:
  "k \<in> set (map fst kvs) \<Longrightarrow> k \<notin> set block_fields \<Longrightarrow> block_of (PDict kvs) = Inl TypeError"
  by (auto simp: block_of_def)

lemma block_of_missing:
  assumes "k \<in> set block_fields" "k \<notin> set (map fst kvs)"
  shows "block_of (PDict kvs) = Inl TypeError"
proof -
  from assms(2) have n: "map_of kvs k = None" by (simp add: map_of_eq_None_iff)
  from assms(1) have "k = ''index'' \<or> k = ''timestamp'' \<or> k = ''prev_hash'' \<or> k = ''data''
      \<or> k = ''current_hash''"
    by (simp add: block_fields_def)
  with n show ?thesis
    by (auto simp: block_of_def split: option.splits)
qed

lemma block_of_not_dict: "(\<forall>kvs. r \<noteq> PDict kvs) \<Longrightarrow> block_of r = Inl TypeError"
  by (cases r) (simp_all add: block_of_def)

lemma load_blocks_fails:
  "r \<in> set rs \<Longrightarrow> block_of r = Inl e \<Longrightarrow> \<exists>e'. load_blocks rs = Inl e'"
  by (induction rs) (auto split: sum.splits)

lemma chain_file_create_genesis:
  "chain_file (create_genesis L t s) = Stored (PList [asdict (genesis_block L t)])"
  by (simp add: create_genesis_def chain_file_save)

lemma init_load_failure:
  "load raw = Inl e \<Longrightarrow>
   init L t (Stored raw) = create_genesis L t \<lparr>chain_blocks = [], chain_file = Stored raw\<rparr>"
  by (simp add: init_def)

text \<open>
  C8 (amended). When some record of the persisted array is not an object, or is an object
  whose keys are not exactly the five fields (one is missing, or there is one more), loading
  fails and initialisation gives the single-block chain of the genesis block, which is
  saved. A record with exactly the five fields is loaded whatever its values are.
\<close>

theorem load_failure_gives_genesis:
  assumes "r \<in> set rs"
    and "(\<forall>kvs. r \<noteq> PDict kvs) \<or>
         (\<exists>kvs. r = PDict kvs \<and> set (map fst kvs) \<noteq> set block_fields)"
  shows "chain_blocks (init L t (Stored (PList rs))) = [genesis_block L t] \<and>
         chain_file (init L t (Stored (PList rs))) = Stored (PList [asdict (genesis_block L t)]) \<and>
         data (genesis_block L t) = genesis_data \<and>
         chain_blocks (init L t (Stored (PList [asdict b]))) = [b]"
proof -
  have ok: "chain_blocks (init L t (Stored (PList [asdict b]))) = [b]"
    by (simp add: init_def load_def block_of_asdict)
  have "\<exists>e. block_of r = Inl e"
  proof (cases "\<forall>kvs. r \<noteq> PDict kvs")
    case True
    then show ?thesis by (simp add: block_of_not_dict)
  next
    case False
    with assms(2) obtain kvs where r: "r = PDict kvs"
      and ne: "set (map fst kvs) \<noteq> set block_fields" by blast
    from ne consider k where "k \<in> set (map fst kvs)" "k \<notin> set block_fields"
      | k where "k \<in> set block_fields" "k \<notin> set (map fst kvs)" by blast
    then show ?thesis
    proof cases
      case 1
      then show ?thesis using r block_of_extra by blast
    next
      case 2
      then show ?thesis using r block_of_missing by blast
    qed
  qed
  with assms(1) obtain e' where "load_blocks rs = Inl e'" using load_blocks_fails by blast
  then have "load (PList rs) = Inl e'" by (simp add: load_def)
  from init_load_failure[OF this]
  have "chain_blocks (init L t (Stored (PList rs))) = [genesis_block L t] \<and>
        chain_file (init L t (Stored (PList rs))) = Stored (PList [asdict (genesis_block L t)]) \<and>
        data (genesis_block L t) = genesis_data"
    by (simp add: chain_blocks_create_genesis chain_file_create_genesis genesis_block_def)
  with ok show ?thesis by simp
qed

theorem load_failure_gives_genesis_witness:
  "PDict [(''index'', PInt 0), (''timestamp'', PInt 0), (''prev_hash'', PStr sentinel),
          (''data'', genesis_data)]
     \<in> set [PDict [(''index'', PInt 0), (''timestamp'', PInt 0), (''prev_hash'', PStr sentinel),
          (''data'', genesis_data)]] \<and>
   set (map fst [(''index'', PInt 0), (''timestamp'', PInt 0), (''prev_hash'', PStr sentinel),
          (''data'', genesis_data)]) \<noteq> set block_fields \<and>
   chain_blocks (init demo_lib (PyFloat 0 0)
     (Stored (PList [PDict [(''index'', PInt 0), (''timestamp'', PInt 0),
        (''prev_hash'', PStr sentinel), (''data'', genesis_data)]])))
     = [genesis_block demo_lib (PyFloat 0 0)] \<and>
   chain_file (init demo_lib (PyFloat 0 0)
     (Stored (PList [PDict [(''index'', PInt 0), (''timestamp'', PInt 0),
        (''prev_hash'', PStr sentinel), (''data'', genesis_data)]])))
     = Stored (PList [asdict (genesis_block demo_lib (PyFloat 0 0))])"
proof -
  let ?kvs = "[(''index'', PInt 0), (''timestamp'', PInt 0), (''prev_hash'', PStr sentinel),
          (''data'', genesis_data)]"
  have m: "PDict ?kvs \<in> set [PDict ?kvs]" by simp
  have i: "''current_hash'' \<in> set block_fields" by (simp add: block_fields_def)
  have n: "''current_hash'' \<notin> set (map fst ?kvs)" by simp
  from i n have k: "set (map fst ?kvs) \<noteq> set block_fields" by metis
  have h: "(\<forall>kvs. PDict ?kvs \<noteq> PDict kvs) \<or>
      (\<exists>kvs. PDict ?kvs = PDict kvs \<and> set (map fst kvs) \<noteq> set block_fields)"
    by (intro disjI2 exI conjI) (rule refl, rule k)
  note r = load_failure_gives_genesis[OF m h, of demo_lib "PyFloat 0 0"]
  show ?thesis
    by (intro conjI) (rule m, rule k, rule r[THEN conjunct1], rule r[THEN conjunct2, THEN conjunct1])
qed

text \<open>
  C8 as stated fails for a mistyped field: a record with the five fields whose \<open>index\<close> is a
  string is loaded as it is, and the chain is that block, not the genesis block.
\<close>

theorem mistyped_record_loads_counterexample:
  "chain_blocks (init demo_lib (PyFloat 0 0)
      (Stored (PList [PDict [(''index'', PStr ''zero''), (''timestamp'', PInt 0),
         (''prev_hash'', PStr ''p''), (''data'', PDict []), (''current_hash'', PStr ''c'')]])))
   = [\<lparr>index = PStr ''zero'', timestamp = PInt 0, prev_hash = PStr ''p'', data = PDict [],
        current_hash = PStr ''c''\<rparr>]"
  by (simp add: init_def load_def block_of_def block_fields_def)

section \<open>Chains whose payloads are dictionaries\<close>


lemma carries_iff:
  "carries b c \<longleftrightarrow> (\<exists>kvs. data b = PDict kvs \<and> map_of kvs ''cert_hash'' = Some (PStr c))"
  by (cases "data b") (auto simp: carries_def dict_get_def split: option.splits)

lemma dict_get_is_dict: "is_dict d \<Longrightarrow> \<exists>v. dict_get d k dflt = Inr v"
  by (cases d) (simp_all add: dict_get_def)

lemma dict_get_Inr_is_dict: "dict_get d k dflt = Inr v \<Longrightarrow> is_dict d"
  by (cases d) (simp_all add: dict_get_def)

lemma has_cert_hash_list_typed:
  "\<forall>b \<in> set bs. is_dict (data b) \<Longrightarrow>
   has_cert_hash_list bs c = Inr (\<exists>b \<in> set bs. carries b c)"
proof (induction bs)
  case Nil
  then show ?case by simp
next
  case (Cons b bs)
  then obtain v where v: "dict_get (data b) ''cert_hash'' PNone = Inr v"
    using dict_get_is_dict by fastforce
  with Cons show ?case by (auto simp: carries_def)
qed

lemma has_cert_hash_list_False_typed:
  "has_cert_hash_list bs c = Inr False \<Longrightarrow> \<forall>b \<in> set bs. is_dict (data b)"
proof (induction bs)
  case Nil
  then show ?case by simp
next
  case (Cons b bs)
  then show ?case
    by (auto split: sum.splits if_splits dest: dict_get_Inr_is_dict)
qed

lemma history_list_typed:
  "\<forall>b \<in> set bs. is_dict (data b) \<Longrightarrow>
   history_list bs c = Inr (map asdict (filter (\<lambda>b. carries b c) bs))"
proof (induction bs)
  case Nil
  then show ?case by simp
next
  case (Cons b bs)
  then obtain v where v: "dict_get (data b) ''cert_hash'' PNone = Inr v"
    using dict_get_is_dict by fastforce
  with Cons show ?case by (auto simp: carries_def)
qed

lemma history_list_Inr_typed:
  "history_list bs c = Inr hs \<Longrightarrow> \<forall>b \<in> set bs. is_dict (data b)"
proof (induction bs arbitrary: hs)
  case Nil
  then show ?case by simp
next
  case (Cons b bs)
  then show ?case
    by (auto split: sum.splits dest: dict_get_Inr_is_dict)
qed

lemma subscript_asdict_data: "subscript (asdict b) ''data'' = Inr (data b)"
  by (simp add: subscript_def asdict_def)

lemma owner_loop_typed:
  "\<forall>b \<in> set bs. is_dict (data b) \<Longrightarrow> \<exists>v. owner_loop cur (map asdict bs) = Inr v"
proof (induction bs arbitrary: cur)
  case Nil
  then show ?case by simp
next
  case (Cons b bs)
  then have d: "is_dict (data b)" and rest: "\<forall>b \<in> set bs. is_dict (data b)" by simp_all
  from d obtain kvs where k: "data b = PDict kvs" by (cases "data b") simp_all
  show ?case
    using Cons.IH[OF rest] k
    by (simp add: subscript_asdict_data dict_get_def)
qed

lemma has_cert_hash_list_True_iff:
  "has_cert_hash_list bs c = Inr True \<longleftrightarrow>
     (\<exists>xs b ys. bs = xs @ b # ys \<and> (\<forall>x \<in> set xs. is_dict (data x)) \<and> carries b c)"
proof (induction bs)
  case Nil
  then show ?case by simp
next
  case (Cons a bs)
  show ?case
  proof (cases "dict_get (data a) ''cert_hash'' PNone")
    case (Inl e)
    have nd: "\<not> is_dict (data a)"
    proof
      assume "is_dict (data a)"
      from dict_get_is_dict[OF this, of "''cert_hash''" PNone] Inl show False by simp
    qed
    from Inl have nc: "\<not> carries a c" by (simp add: carries_def)
    have "\<not> (\<exists>xs b ys. a # bs = xs @ b # ys \<and> (\<forall>x \<in> set xs. is_dict (data x)) \<and> carries b c)"
      using nd nc by (auto simp: Cons_eq_append_conv)
    with Inl show ?thesis by simp
  next
    case (Inr v)
    then have d: "is_dict (data a)" by (rule dict_get_Inr_is_dict)
    show ?thesis
    proof (cases "v = PStr c")
      case True
      with Inr have "carries a c" by (simp add: carries_def)
      then have "\<exists>xs b ys. a # bs = xs @ b # ys \<and> (\<forall>x \<in> set xs. is_dict (data x)) \<and> carries b c"
        by (intro exI[of _ "[]"] exI[of _ a] exI[of _ bs]) simp
      with Inr True show ?thesis by simp
    next
      case False
      with Inr have nc: "\<not> carries a c" by (simp add: carries_def)
      have "(\<exists>xs b ys. a # bs = xs @ b # ys \<and> (\<forall>x \<in> set xs. is_dict (data x)) \<and> carries b c)
          \<longleftrightarrow> (\<exists>xs b ys. bs = xs @ b # ys \<and> (\<forall>x \<in> set xs. is_dict (data x)) \<and> carries b c)"
        (is "?L \<longleftrightarrow> ?R")
      proof
        assume ?L
        then obtain xs b ys where e: "a # bs = xs @ b # ys"
          and t: "\<forall>x \<in> set xs. is_dict (data x)" and cb: "carries b c" by blast
        from e nc cb obtain xs' where "xs = a # xs'" "bs = xs' @ b # ys"
          by (cases xs) auto
        with t cb show ?R by auto
      next
        assume ?R
        then obtain xs b ys where e: "bs = xs @ b # ys"
          and t: "\<forall>x \<in> set xs. is_dict (data x)" and cb: "carries b c" by blast
        from e have "a # bs = (a # xs) @ b # ys" by simp
        moreover from t d have "\<forall>x \<in> set (a # xs). is_dict (data x)" by simp
        ultimately show ?L using cb by blast
      qed
      with Inr False Cons.IH show ?thesis by simp
    qed
  qed
qed

section \<open>Minting\<close>


lemma has_cert_hash_list_append:
  "has_cert_hash_list (xs @ ys) c =
     (case has_cert_hash_list xs c of
        Inl e \<Rightarrow> Inl e
      | Inr r \<Rightarrow> if r then Inr True else has_cert_hash_list ys c)"
  by (induction xs) (auto split: sum.splits)

lemma carries_mint_data:
  "carries \<lparr>index = i, timestamp = t, prev_hash = p, data = mint_data c f st co yr,
            current_hash = h\<rparr> c"
  by (simp add: carries_def dict_get_def mint_data_def)

lemma carries_new_block_mint: "carries (new_block L t1 t2 (mint_data c f st co yr) s) c"
  by (simp add: carries_def dict_get_def mint_data_def new_block_def)

lemma has_cert_hash_single: "carries b c \<Longrightarrow> has_cert_hash_list [b] c = Inr True"
  by (simp add: carries_def)

lemma mint_flow_result:
  assumes f: "file_sha256 L files path = Inr fhash"
    and m: "mint_flow L files t1 t2 student course year path s = Inr (s1, r1)"
  shows "(r1 = MintDuplicate (cert_fingerprint L fhash student course year) \<and> s1 = s \<and>
          has_cert_hash s (cert_fingerprint L fhash student course year) = Inr True) \<or>
         (r1 = Minted (cert_fingerprint L fhash student course year)
                 (new_block L t1 t2
                    (mint_data (cert_fingerprint L fhash student course year) fhash student course year) s) \<and>
          has_cert_hash s (cert_fingerprint L fhash student course year) = Inr False \<and>
          chain_blocks s \<noteq> [] \<and>
          chain_blocks s1 = chain_blocks s @
            [new_block L t1 t2
               (mint_data (cert_fingerprint L fhash student course year) fhash student course year) s])"
proof -
  let ?fp = "cert_fingerprint L fhash student course year"
  from m f obtain r where r: "has_cert_hash s ?fp = Inr r"
    by (cases "has_cert_hash s ?fp") (simp_all add: mint_flow_def Let_def)
  show ?thesis
  proof (cases r)
    case True
    with m f r show ?thesis by (simp add: mint_flow_def Let_def)
  next
    case False
    from m f r False have
      "(case add_block L t1 t2 (mint_data ?fp fhash student course year) s of
          Inl e \<Rightarrow> Inl e
        | Inr (s', b) \<Rightarrow> Inr (s', Minted ?fp b)) = Inr (s1, r1)"
      by (simp add: mint_flow_def Let_def)
    then obtain b where
      a: "add_block L t1 t2 (mint_data ?fp fhash student course year) s = Inr (s1, b)"
      and r1: "r1 = Minted ?fp b"
      by (cases "add_block L t1 t2 (mint_data ?fp fhash student course year) s") auto
    from add_block_Inr[OF a] r1 r False show ?thesis by simp
  qed
qed

lemma mint_flow_has:
  assumes f: "file_sha256 L files path = Inr fhash"
    and m: "mint_flow L files t1 t2 student course year path s = Inr (s1, r1)"
  shows "has_cert_hash s1 (cert_fingerprint L fhash student course year) = Inr True"
proof -
  let ?fp = "cert_fingerprint L fhash student course year"
  let ?b = "new_block L t1 t2 (mint_data ?fp fhash student course year) s"
  have one: "has_cert_hash_list [?b] ?fp = Inr True"
    by (rule has_cert_hash_single) (rule carries_new_block_mint)
  from mint_flow_result[OF f m] show ?thesis
  proof
    assume "r1 = MintDuplicate ?fp \<and> s1 = s \<and> has_cert_hash s ?fp = Inr True"
    then show ?thesis by simp
  next
    assume "r1 = Minted ?fp ?b \<and> has_cert_hash s ?fp = Inr False \<and> chain_blocks s \<noteq> [] \<and>
          chain_blocks s1 = chain_blocks s @ [?b]"
    then have "has_cert_hash_list (chain_blocks s) ?fp = Inr False"
      and "chain_blocks s1 = chain_blocks s @ [?b]"
      by (simp_all add: has_cert_hash_def)
    with one show ?thesis
      by (simp only: has_cert_hash_def has_cert_hash_list_append) simp
  qed
qed

lemma mint_flow_duplicate:
  assumes f: "file_sha256 L files path = Inr fhash"
    and h: "has_cert_hash s (cert_fingerprint L fhash student course year) = Inr True"
  shows "mint_flow L files t1 t2 student course year path s =
           Inr (s, MintDuplicate (cert_fingerprint L fhash student course year))"
  using f h by (simp add: mint_flow_def Let_def)

text \<open>
  C5. The fingerprint is the digest of the file digest, the student, the course and the year
  joined by \<open>|\<close>. Of two mint attempts with the same file digest, student, course and year,
  the first ends with the fingerprint registered (it mints it, or finds it), and the second,
  on the state the first left, computes the same fingerprint, finds it with
  \<^verbatim>\<open>has_cert_hash\<close>, reports a duplicate and leaves the state as it is.
\<close>

theorem mint_twice_duplicate:
  assumes f1: "file_sha256 L files path = Inr fhash"
    and f2: "file_sha256 L files' path' = Inr fhash"
    and m: "mint_flow L files t1 t2 student course year path s = Inr (s1, r1)"
  shows "cert_fingerprint L fhash student course year =
           sha256_hex L (fhash @ ''|'' @ student @ ''|'' @ course @ ''|'' @ year) \<and>
         (r1 = MintDuplicate (cert_fingerprint L fhash student course year) \<or>
          (\<exists>b. r1 = Minted (cert_fingerprint L fhash student course year) b)) \<and>
         has_cert_hash s1 (cert_fingerprint L fhash student course year) = Inr True \<and>
         mint_flow L files' t3 t4 student course year path' s1 =
           Inr (s1, MintDuplicate (cert_fingerprint L fhash student course year))"
proof -
  have a: "cert_fingerprint L fhash student course year =
           sha256_hex L (fhash @ ''|'' @ student @ ''|'' @ course @ ''|'' @ year)"
    by (simp add: cert_fingerprint_def)
  have b: "r1 = MintDuplicate (cert_fingerprint L fhash student course year) \<or>
          (\<exists>b. r1 = Minted (cert_fingerprint L fhash student course year) b)"
    using mint_flow_result[OF f1 m] by blast
  note c = mint_flow_has[OF f1 m]
  note d = mint_flow_duplicate[OF f2 c, of t3 t4]
  from a b c d show ?thesis by blast
qed

section \<open>Transferring\<close>


lemma history_Inr:
  assumes "history s c = Inr hist"
  shows "(\<forall>b \<in> set (chain_blocks s). is_dict (data b)) \<and>
         hist = map asdict (filter (\<lambda>b. carries b c) (chain_blocks s))"
proof -
  from assms have h: "history_list (chain_blocks s) c = Inr hist" by (simp add: history_def)
  from history_list_Inr_typed[OF h] have t: "\<forall>b \<in> set (chain_blocks s). is_dict (data b)" .
  from history_list_typed[OF t, of c] h show ?thesis using t by simp
qed

lemma resolve_owner_history:
  assumes "history s c = Inr hist"
  shows "\<exists>v. resolve_owner hist = Inr v"
proof -
  from history_Inr[OF assms] have t: "\<forall>b \<in> set (chain_blocks s). is_dict (data b)"
    and h: "hist = map asdict (filter (\<lambda>b. carries b c) (chain_blocks s))" by simp_all
  from t have "\<forall>b \<in> set (filter (\<lambda>b. carries b c) (chain_blocks s)). is_dict (data b)" by simp
  from owner_loop_typed[OF this, of PNone] h show ?thesis by (simp add: resolve_owner_def)
qed

lemma transfer_flow_not_found:
  "history s c = Inr [] \<Longrightarrow> transfer_flow L t1 t2 c new_owner s = Inr (s, TransferNotFound)"
  by (simp add: transfer_flow_def)

lemma transfer_flow_found:
  assumes h: "history s c = Inr hist" and ne: "hist \<noteq> []"
  shows "\<exists>v. resolve_owner hist = Inr v \<and>
     transfer_flow L t1 t2 c new_owner s =
       Inr (save (s\<lparr>chain_blocks := chain_blocks s @
                     [new_block L t1 t2 (transfer_data c v new_owner) s]\<rparr>),
            Transferred (new_block L t1 t2 (transfer_data c v new_owner) s))"
proof -
  from resolve_owner_history[OF h] obtain v where v: "resolve_owner hist = Inr v" by blast
  from history_Inr[OF h] ne have "chain_blocks s \<noteq> []" by auto
  from add_block_nonempty[OF this, of L t1 t2 "transfer_data c v new_owner"] h ne v
  show ?thesis by (simp add: transfer_flow_def)
qed

text \<open>
  C7. When \<^verbatim>\<open>history\<close> returns for the fingerprint, the transfer flow returns too, and the
  chain is unchanged exactly when the history is empty: then the whole state is unchanged and
  the outcome is "not found". Otherwise exactly one block is appended; its payload is a
  Transfer of the fingerprint whose \<open>from\<close> is the owner resolved from the history and whose
  \<open>to\<close> is the new owner given. Nothing about the requester enters the flow.
\<close>

theorem transfer_flow_cases:
  assumes "history s c = Inr hist"
  shows "\<exists>s' r. transfer_flow L t1 t2 c new_owner s = Inr (s', r) \<and>
     (chain_blocks s' = chain_blocks s \<longleftrightarrow> hist = []) \<and>
     (hist = [] \<longrightarrow> s' = s \<and> r = TransferNotFound) \<and>
     (hist \<noteq> [] \<longrightarrow>
        (\<exists>v b. resolve_owner hist = Inr v \<and> r = Transferred b \<and>
           chain_blocks s' = chain_blocks s @ [b] \<and>
           data b = PDict [(''type'', PStr ''TRANSFER''), (''cert_hash'', PStr c),
                           (''from'', v), (''to'', PStr new_owner)]))"
proof (cases "hist = []")
  case True
  with assms have "transfer_flow L t1 t2 c new_owner s = Inr (s, TransferNotFound)"
    by (simp add: transfer_flow_not_found)
  with True show ?thesis by simp
next
  case False
  from transfer_flow_found[OF assms False, of L t1 t2 new_owner]
  obtain v where v: "resolve_owner hist = Inr v"
    and t: "transfer_flow L t1 t2 c new_owner s =
       Inr (save (s\<lparr>chain_blocks := chain_blocks s @
                     [new_block L t1 t2 (transfer_data c v new_owner) s]\<rparr>),
            Transferred (new_block L t1 t2 (transfer_data c v new_owner) s))"
    by blast
  have d: "data (new_block L t1 t2 (transfer_data c v new_owner) s) =
      PDict [(''type'', PStr ''TRANSFER''), (''cert_hash'', PStr c),
             (''from'', v), (''to'', PStr new_owner)]"
    by (simp add: new_block_def transfer_data_def)
  from False v t d show ?thesis by (simp add: chain_blocks_save)
qed

lemma transfer_flow_keeps:
  assumes t: "\<forall>b \<in> set (chain_blocks s). is_dict (data b)"
    and c: "\<exists>b \<in> set (chain_blocks s). carries b c"
  shows "\<exists>s' b. transfer_flow L t1 t2 c new_owner s = Inr (s', Transferred b) \<and>
     (\<forall>b \<in> set (chain_blocks s'). is_dict (data b)) \<and>
     (\<exists>b \<in> set (chain_blocks s'). carries b c)"
proof -
  let ?hist = "map asdict (filter (\<lambda>b. carries b c) (chain_blocks s))"
  from history_list_typed[OF t, of c] have h: "history s c = Inr ?hist" by (simp add: history_def)
  from c have ne: "?hist \<noteq> []" by (auto simp: filter_empty_conv)
  from transfer_flow_found[OF h ne, of L t1 t2 new_owner]
  obtain v where
    tf: "transfer_flow L t1 t2 c new_owner s =
       Inr (save (s\<lparr>chain_blocks := chain_blocks s @
                     [new_block L t1 t2 (transfer_data c v new_owner) s]\<rparr>),
            Transferred (new_block L t1 t2 (transfer_data c v new_owner) s))"
    by blast
  have d: "is_dict (data (new_block L t1 t2 (transfer_data c v new_owner) s))"
    by (simp add: new_block_def transfer_data_def)
  from tf t c d show ?thesis by (auto simp: chain_blocks_save)
qed

lemma transfers_keep:
  assumes "\<forall>b \<in> set (chain_blocks s). is_dict (data b)"
    and "\<exists>b \<in> set (chain_blocks s). carries b c"
  shows "\<exists>s'. transfers L c ws s = Inr s' \<and>
     (\<forall>b \<in> set (chain_blocks s'). is_dict (data b)) \<and>
     (\<exists>b \<in> set (chain_blocks s'). carries b c)"
  using assms
proof (induction ws arbitrary: s)
  case Nil
  then show ?case by simp
next
  case (Cons w ws)
  obtain n t1 t2 where w: "w = (n, t1, t2)" by (cases w) auto
  from transfer_flow_keeps[OF Cons.prems, of L t1 t2 n]
  obtain s1 b where tf: "transfer_flow L t1 t2 c n s = Inr (s1, Transferred b)"
    and t1: "\<forall>b \<in> set (chain_blocks s1). is_dict (data b)"
    and c1: "\<exists>b \<in> set (chain_blocks s1). carries b c" by blast
  from Cons.IH[OF t1 c1] tf w show ?case by simp
qed

lemma mint_flow_Minted:
  assumes "mint_flow L files t1 t2 student course year path s = Inr (s1, Minted fp b)"
  shows "(\<forall>b \<in> set (chain_blocks s1). is_dict (data b)) \<and>
         (\<exists>b \<in> set (chain_blocks s1). carries b fp)"
proof -
  from assms obtain fhash where f: "file_sha256 L files path = Inr fhash"
    by (cases "file_sha256 L files path") (simp_all add: mint_flow_def)
  let ?fp = "cert_fingerprint L fhash student course year"
  let ?b = "new_block L t1 t2 (mint_data ?fp fhash student course year) s"
  from mint_flow_result[OF f assms] have fp: "fp = ?fp"
    and h: "has_cert_hash s ?fp = Inr False"
    and ch: "chain_blocks s1 = chain_blocks s @ [?b]" by simp_all
  from h have "\<forall>b \<in> set (chain_blocks s). is_dict (data b)"
    by (simp add: has_cert_hash_def has_cert_hash_list_False_typed)
  moreover have "is_dict (data ?b)" by (simp add: new_block_def mint_data_def)
  moreover have "carries ?b ?fp" by (rule carries_new_block_mint)
  ultimately show ?thesis using ch fp by auto
qed

text \<open>
  C6 (amended). \<^verbatim>\<open>has_cert_hash\<close> is true exactly when some block's payload has the
  fingerprint under \<open>cert_hash\<close> and the payload of every block before it is a dictionary.
  So on a chain whose payloads are all dictionaries it is true exactly when some block's
  payload has the fingerprint. After a successful mint of a fingerprint it is true, and it
  is still true after any sequence of transfers of that fingerprint (each of which succeeds).
\<close>

theorem has_cert_hash_iff_carried:
  "(has_cert_hash s fp = Inr True \<longleftrightarrow>
      (\<exists>xs b ys. chain_blocks s = xs @ b # ys \<and> (\<forall>x \<in> set xs. is_dict (data x)) \<and>
         (\<exists>kvs. data b = PDict kvs \<and> map_of kvs ''cert_hash'' = Some (PStr fp)))) \<and>
   ((\<forall>b \<in> set (chain_blocks s). is_dict (data b)) \<longrightarrow>
      has_cert_hash s fp =
        Inr (\<exists>b \<in> set (chain_blocks s). \<exists>kvs. data b = PDict kvs \<and>
               map_of kvs ''cert_hash'' = Some (PStr fp))) \<and>
   (mint_flow L files t1 t2 student course year path s0 = Inr (s1, Minted c b) \<longrightarrow>
      has_cert_hash s1 c = Inr True \<and>
      (\<exists>s2. transfers L c ws s1 = Inr s2 \<and> has_cert_hash s2 c = Inr True))"
proof (intro conjI impI)
  show "has_cert_hash s fp = Inr True \<longleftrightarrow>
      (\<exists>xs b ys. chain_blocks s = xs @ b # ys \<and> (\<forall>x \<in> set xs. is_dict (data x)) \<and>
         (\<exists>kvs. data b = PDict kvs \<and> map_of kvs ''cert_hash'' = Some (PStr fp)))"
    by (simp only: has_cert_hash_def has_cert_hash_list_True_iff carries_iff)
next
  assume t: "\<forall>b \<in> set (chain_blocks s). is_dict (data b)"
  from has_cert_hash_list_typed[OF t, of fp]
  show "has_cert_hash s fp =
        Inr (\<exists>b \<in> set (chain_blocks s). \<exists>kvs. data b = PDict kvs \<and>
               map_of kvs ''cert_hash'' = Some (PStr fp))"
    by (simp add: has_cert_hash_def carries_iff)
next
  assume m: "mint_flow L files t1 t2 student course year path s0 = Inr (s1, Minted c b)"
  from mint_flow_Minted[OF m] have t: "\<forall>b \<in> set (chain_blocks s1). is_dict (data b)"
    and c: "\<exists>b \<in> set (chain_blocks s1). carries b c" by simp_all
  from has_cert_hash_list_typed[OF t, of c] c
  show "has_cert_hash s1 c = Inr True" by (simp add: has_cert_hash_def)
  from transfers_keep[OF t c, of L ws] obtain s2 where r: "transfers L c ws s1 = Inr s2"
    and t2: "\<forall>b \<in> set (chain_blocks s2). is_dict (data b)"
    and c2: "\<exists>b \<in> set (chain_blocks s2). carries b c" by blast
  from has_cert_hash_list_typed[OF t2, of c] c2 r
  show "\<exists>s2. transfers L c ws s1 = Inr s2 \<and> has_cert_hash s2 c = Inr True"
    by (simp add: has_cert_hash_def)
qed

section \<open>The flows on concrete inputs\<close>


lemma mint_flow_fresh:
  assumes "file_sha256 L files path = Inr fhash"
    and "has_cert_hash s (cert_fingerprint L fhash student course year) = Inr False"
    and "chain_blocks s \<noteq> []"
  shows "\<exists>s1 b. mint_flow L files t1 t2 student course year path s =
           Inr (s1, Minted (cert_fingerprint L fhash student course year) b)"
  using assms add_block_nonempty[OF assms(3)]
  by (simp add: mint_flow_def Let_def)

lemma demo_file: "file_sha256 demo_lib demo_files ''a.pdf'' = Inr ''H1''"
  by (simp add: file_sha256_def demo_files_def demo_lib_def)

lemma demo_fingerprint: "cert_fingerprint demo_lib ''H1'' ''Ana'' ''CS101'' ''2025'' = ''H1|Ana|CS101|2025''"
  by (simp add: cert_fingerprint_def demo_lib_def)

lemma demo_state_chain: "chain_blocks demo_state = [genesis_block demo_lib (PyFloat 0 0)]"
  by (simp add: demo_state_def chain_blocks_create_genesis)

lemma genesis_not_carries: "\<not> carries (genesis_block L t) c"
  by (simp add: carries_def genesis_block_def genesis_data_def dict_get_def)

lemma genesis_is_dict: "is_dict (data (genesis_block L t))"
  by (simp add: genesis_block_def genesis_data_def)

lemma demo_state_typed: "\<forall>b \<in> set (chain_blocks demo_state). is_dict (data b)"
  by (simp add: demo_state_chain genesis_is_dict)

lemma demo_state_has: "has_cert_hash demo_state c = Inr False"
  using has_cert_hash_list_typed[OF demo_state_typed, of c]
  by (simp add: has_cert_hash_def demo_state_chain genesis_not_carries)

lemma demo_mint:
  "\<exists>s1 b. mint_flow demo_lib demo_files t1 t2 ''Ana'' ''CS101'' ''2025'' ''a.pdf'' demo_state =
           Inr (s1, Minted ''H1|Ana|CS101|2025'' b)"
  using mint_flow_fresh[OF demo_file, of demo_state "''Ana''" "''CS101''" "''2025''" t1 t2]
  by (simp add: demo_state_has demo_state_chain demo_fingerprint)

theorem mint_twice_duplicate_witness:
  "file_sha256 demo_lib demo_files ''a.pdf'' = Inr ''H1'' \<and>
   (\<exists>s1 r1.
      mint_flow demo_lib demo_files (PyFloat 1 0) (PyFloat 2 0) ''Ana'' ''CS101'' ''2025'' ''a.pdf''
        demo_state = Inr (s1, r1) \<and>
      mint_flow demo_lib demo_files (PyFloat 3 0) (PyFloat 4 0) ''Ana'' ''CS101'' ''2025'' ''a.pdf''
        s1 = Inr (s1, MintDuplicate ''H1|Ana|CS101|2025''))"
proof -
  from demo_mint[of "PyFloat 1 0" "PyFloat 2 0"] obtain s1 b where
    m: "mint_flow demo_lib demo_files (PyFloat 1 0) (PyFloat 2 0) ''Ana'' ''CS101'' ''2025'' ''a.pdf''
        demo_state = Inr (s1, Minted ''H1|Ana|CS101|2025'' b)" by blast
  from mint_twice_duplicate[OF demo_file demo_file m, of "PyFloat 3 0" "PyFloat 4 0"]
  have "mint_flow demo_lib demo_files (PyFloat 3 0) (PyFloat 4 0) ''Ana'' ''CS101'' ''2025'' ''a.pdf''
        s1 = Inr (s1, MintDuplicate ''H1|Ana|CS101|2025'')"
    by (simp only: demo_fingerprint)
  with m demo_file show ?thesis by blast
qed

lemma demo_mint_block_cert:
  "data demo_mint_block = mint_data ''F'' ''H1'' ''Ana'' ''CS101'' ''2025'' \<and>
   map_of [(''type'', PStr ''MINT''), (''cert_hash'', PStr ''F''), (''file_hash'', PStr ''H1''),
      (''student_name'', PStr ''Ana''), (''course'', PStr ''CS101''), (''year'', PStr ''2025''),
      (''owner'', PStr ''Ana'')] ''cert_hash'' = Some (PStr ''F'')"
  by (simp add: demo_mint_block_def)

theorem has_cert_hash_iff_carried_witness:
  "has_cert_hash demo_bad_last ''F'' = Inr True \<and>
   (\<exists>s1 b.
     mint_flow demo_lib demo_files (PyFloat 1 0) (PyFloat 2 0) ''Ana'' ''CS101'' ''2025'' ''a.pdf''
       demo_state = Inr (s1, Minted ''H1|Ana|CS101|2025'' b) \<and>
     (\<forall>b \<in> set (chain_blocks s1). is_dict (data b)) \<and>
     has_cert_hash s1 ''H1|Ana|CS101|2025'' =
       Inr (\<exists>b \<in> set (chain_blocks s1). \<exists>kvs. data b = PDict kvs \<and>
              map_of kvs ''cert_hash'' = Some (PStr ''H1|Ana|CS101|2025'')) \<and>
     has_cert_hash s1 ''H1|Ana|CS101|2025'' = Inr True \<and>
     (\<exists>s2. transfers demo_lib ''H1|Ana|CS101|2025''
             [(''org@example.com'', PyFloat 3 0, PyFloat 4 0)] s1 = Inr s2 \<and>
           has_cert_hash s2 ''H1|Ana|CS101|2025'' = Inr True))"
proof -
  from demo_mint[of "PyFloat 1 0" "PyFloat 2 0"] obtain s1 b where
    m: "mint_flow demo_lib demo_files (PyFloat 1 0) (PyFloat 2 0) ''Ana'' ''CS101'' ''2025'' ''a.pdf''
        demo_state = Inr (s1, Minted ''H1|Ana|CS101|2025'' b)" by blast
  from mint_flow_Minted[OF m] have t: "\<forall>b \<in> set (chain_blocks s1). is_dict (data b)" by simp
  note r = has_cert_hash_iff_carried[of s1 "''H1|Ana|CS101|2025''" demo_lib demo_files
      "PyFloat 1 0" "PyFloat 2 0" "''Ana''" "''CS101''" "''2025''" "''a.pdf''" demo_state s1
      "''H1|Ana|CS101|2025''" b "[(''org@example.com'', PyFloat 3 0, PyFloat 4 0)]"]
  from r t have a: "has_cert_hash s1 ''H1|Ana|CS101|2025'' =
       Inr (\<exists>b \<in> set (chain_blocks s1). \<exists>kvs. data b = PDict kvs \<and>
              map_of kvs ''cert_hash'' = Some (PStr ''H1|Ana|CS101|2025''))" by blast
  from r m have b: "has_cert_hash s1 ''H1|Ana|CS101|2025'' = Inr True \<and>
     (\<exists>s2. transfers demo_lib ''H1|Ana|CS101|2025''
             [(''org@example.com'', PyFloat 3 0, PyFloat 4 0)] s1 = Inr s2 \<and>
           has_cert_hash s2 ''H1|Ana|CS101|2025'' = Inr True)" by blast
  have split: "chain_blocks demo_bad_last = [] @ demo_mint_block # [demo_bad_block]"
    by (simp add: demo_bad_last_def)
  have pre: "\<forall>x \<in> set ([] :: block list). is_dict (data x)" by simp
  have "\<exists>kvs. data demo_mint_block = PDict kvs \<and> map_of kvs ''cert_hash'' = Some (PStr ''F'')"
    using demo_mint_block_cert by (simp add: mint_data_def)
  with split pre have
    "\<exists>xs b ys. chain_blocks demo_bad_last = xs @ b # ys \<and> (\<forall>x \<in> set xs. is_dict (data x)) \<and>
         (\<exists>kvs. data b = PDict kvs \<and> map_of kvs ''cert_hash'' = Some (PStr ''F''))"
    by blast
  with has_cert_hash_iff_carried[of demo_bad_last "''F''"]
  have z: "has_cert_hash demo_bad_last ''F'' = Inr True" by blast
  from z m t a b show ?thesis by blast
qed

text \<open>
  C6 as stated fails on a chain that the program loads from a chain file: the payload of
  the first block is not a dictionary, the second block's payload carries the fingerprint,
  and \<^verbatim>\<open>has_cert_hash\<close> raises instead of being true.
\<close>

theorem has_cert_hash_raises_counterexample:
  "chain_blocks (init demo_lib (PyFloat 0 0)
      (Stored (PList [asdict demo_bad_block, asdict demo_mint_block])))
     = [demo_bad_block, demo_mint_block] \<and>
   data demo_mint_block = mint_data ''F'' ''H1'' ''Ana'' ''CS101'' ''2025'' \<and>
   dict_get (mint_data ''F'' ''H1'' ''Ana'' ''CS101'' ''2025'') ''cert_hash'' PNone = Inr (PStr ''F'') \<and>
   has_cert_hash (init demo_lib (PyFloat 0 0)
      (Stored (PList [asdict demo_bad_block, asdict demo_mint_block]))) ''F''
     = Inl AttributeError"
proof -
  have l: "chain_blocks (init demo_lib (PyFloat 0 0)
      (Stored (PList [asdict demo_bad_block, asdict demo_mint_block])))
     = [demo_bad_block, demo_mint_block]"
    by (simp add: init_def load_def block_of_asdict)
  have d: "data demo_mint_block = mint_data ''F'' ''H1'' ''Ana'' ''CS101'' ''2025''"
    by (simp add: demo_mint_block_def)
  have g: "dict_get (mint_data ''F'' ''H1'' ''Ana'' ''CS101'' ''2025'') ''cert_hash'' PNone
      = Inr (PStr ''F'')"
    by (simp add: dict_get_def mint_data_def)
  have h: "has_cert_hash_list [demo_bad_block, demo_mint_block] ''F'' = Inl AttributeError"
    by (simp add: demo_bad_block_def dict_get_def)
  from l d g h show ?thesis by (simp add: has_cert_hash_def)
qed

lemma demo_history_none: "history demo_state ''F'' = Inr []"
  using history_list_typed[OF demo_state_typed, of "''F''"]
  by (simp add: history_def demo_state_chain genesis_not_carries)

lemma demo_history_minted: "history demo_minted ''F'' = Inr [asdict demo_mint_block]"
proof -
  have c: "carries demo_mint_block ''F''"
    unfolding demo_mint_block_def by (rule carries_mint_data)
  have d: "is_dict (data demo_mint_block)" by (simp add: demo_mint_block_def mint_data_def)
  have "\<forall>b \<in> set (chain_blocks demo_minted). is_dict (data b)"
    by (simp add: demo_minted_def genesis_is_dict d)
  from history_list_typed[OF this, of "''F''"] show ?thesis
    by (simp add: history_def demo_minted_def genesis_not_carries c)
qed

lemma demo_resolve: "resolve_owner [asdict demo_mint_block] = Inr (PStr ''Ana'')"
  by (simp add: resolve_owner_def asdict_def subscript_def dict_get_def mint_data_def
      demo_mint_block_def)

theorem transfer_flow_cases_witness:
  "history demo_state ''F'' = Inr [] \<and>
   transfer_flow demo_lib (PyFloat 3 0) (PyFloat 4 0) ''F'' ''org@example.com'' demo_state =
     Inr (demo_state, TransferNotFound) \<and>
   history demo_minted ''F'' = Inr [asdict demo_mint_block] \<and>
   [asdict demo_mint_block] \<noteq> [] \<and>
   (\<exists>s' b. transfer_flow demo_lib (PyFloat 3 0) (PyFloat 4 0) ''F'' ''org@example.com'' demo_minted =
       Inr (s', Transferred b) \<and>
     chain_blocks s' = chain_blocks demo_minted @ [b] \<and>
     data b = PDict [(''type'', PStr ''TRANSFER''), (''cert_hash'', PStr ''F''),
                     (''from'', PStr ''Ana''), (''to'', PStr ''org@example.com'')])"
proof -
  from transfer_flow_cases[OF demo_history_none, of demo_lib "PyFloat 3 0" "PyFloat 4 0"
      "''org@example.com''"]
  have a: "transfer_flow demo_lib (PyFloat 3 0) (PyFloat 4 0) ''F'' ''org@example.com'' demo_state =
     Inr (demo_state, TransferNotFound)" by auto
  have ne: "[asdict demo_mint_block] \<noteq> []" by simp
  from transfer_flow_cases[OF demo_history_minted, of demo_lib "PyFloat 3 0" "PyFloat 4 0"
      "''org@example.com''"] ne
  obtain s' r v b where
    t: "transfer_flow demo_lib (PyFloat 3 0) (PyFloat 4 0) ''F'' ''org@example.com'' demo_minted =
       Inr (s', r)"
    and v: "resolve_owner [asdict demo_mint_block] = Inr v"
    and r: "r = Transferred b"
    and ch: "chain_blocks s' = chain_blocks demo_minted @ [b]"
    and d: "data b = PDict [(''type'', PStr ''TRANSFER''), (''cert_hash'', PStr ''F''),
                     (''from'', v), (''to'', PStr ''org@example.com'')]"
    by blast
  from v have "v = PStr ''Ana''" by (simp add: demo_resolve)
  with t r ch d a demo_history_none demo_history_minted ne show ?thesis by blast
qed

end
